theory Spec2Isabelle
  imports Main "HOL-Library.Word"
begin

unbundle bit_operations_syntax

section \<open>How a Go call can end\<close>

text \<open>
  A call of the program either returns or aborts the process: \<open>os.Exit(code)\<close>, a slice
  index out of range (\<open>index out of range [i] with length n\<close>) or a nil pointer
  dereference. Aborts are the left summand of every result type below.
\<close>

datatype abort = OsExit int | IndexOutOfRange nat nat | NilPointerDereference

definition index :: "'a list \<Rightarrow> nat \<Rightarrow> abort + 'a" where
  \<comment> \<open>the slice expression \<open>xs[i]\<close>\<close>
  "index xs i = (if i < length xs then Inr (xs ! i) else Inl (IndexOutOfRange i (length xs)))"


section \<open>The functions of package strings that action.go calls\<close>

text \<open>
  Go strings are byte sequences, as \<^typ>\<open>string\<close> is. \<open>strings.Split(s, sep)\<close> is called
  with the one-byte separators \<open>"\n"\<close> and \<open>":"\<close> only, so the separator is a character:
  the loop looks for the next separator, cuts the piece before it off and goes on behind
  it; what remains when no separator is left is the last piece.
\<close>

function Split :: "string \<Rightarrow> char \<Rightarrow> string list" where
  "Split s sep =
     (case dropWhile (\<lambda>c. c \<noteq> sep) s of
        [] \<Rightarrow> [s]
      | _ # t \<Rightarrow> takeWhile (\<lambda>c. c \<noteq> sep) s # Split t sep)"
  by pat_completeness auto
termination
proof (relation "measure (\<lambda>(s, sep). length s)")
  show "wf (measure (\<lambda>(s, sep). length s))" by simp
next
  fix s :: string and sep x t
  assume "dropWhile (\<lambda>c. c \<noteq> sep) s = x # t"
  then have "length (x # t) \<le> length s"
    by (metis length_dropWhile_le)
  then show "((t, sep), (s, sep)) \<in> measure (\<lambda>(s, sep). length s)" by simp
qed

declare Split.simps [simp del]

definition Trim :: "string \<Rightarrow> string \<Rightarrow> string" where
  \<comment> \<open>\<open>strings.Trim(s, cutset)\<close>: all leading and trailing bytes of the cutset removed\<close>
  "Trim s cutset =
     rev (dropWhile (\<lambda>c. c \<in> set cutset) (rev (dropWhile (\<lambda>c. c \<in> set cutset) s)))"


section \<open>Library functions taken as parameters\<close>

text \<open>
  The program calls \<open>net/url\<close> and \<open>net/http\<close>, which are not part of the repository.
  Their functions are parameters of the model, so every theorem holds whatever they
  compute:
  \<^item> \<open>url_Parse\<close> is \<open>url.Parse\<close>; \<open>None\<close> stands for its result \<open>(nil, err)\<close>;
  \<^item> \<open>Hostname\<close> is the method \<open>(*url.URL).Hostname\<close>;
  \<^item> \<open>NewRequest_rejects method url\<close> says that \<open>http.NewRequest(method, url, _)\<close>
    returns an error;
  \<^item> \<open>CanonicalMIMEHeaderKey\<close> is the key normalisation \<open>http.Header.Add\<close> applies.
\<close>

record 'u library =
  url_Parse :: "string \<Rightarrow> 'u option"
  Hostname :: "'u \<Rightarrow> string"
  NewRequest_rejects :: "string \<Rightarrow> string \<Rightarrow> bool"
  CanonicalMIMEHeaderKey :: "string \<Rightarrow> string"


section \<open>Readers, bodies and requests\<close>

text \<open>
  A \<open>*strings.Reader\<close> is shared between the request that wraps it and the code that reads
  it, so readers live in a heap and are named by their address. \<open>reader_s\<close> is the string
  read from, \<open>reader_i\<close> the current read position.
\<close>

record Reader =
  reader_s :: string
  reader_i :: nat

type_synonym heap = "Reader list"

definition lookup :: "heap \<Rightarrow> nat \<Rightarrow> Reader option" where
  "lookup h a = (if a < length h then Some (h ! a) else None)"

definition strings_NewReader :: "string \<Rightarrow> heap \<Rightarrow> nat \<times> heap" where
  "strings_NewReader str h = (length h, h @ [\<lparr>reader_s = str, reader_i = 0\<rparr>])"

definition unread :: "Reader \<Rightarrow> string" where
  \<comment> \<open>the bytes a reader still yields\<close>
  "unread r = drop (reader_i r) (reader_s r)"

definition io_Copy :: "heap \<Rightarrow> nat \<Rightarrow> (string \<times> heap) option" where
  \<comment> \<open>\<open>io.Copy(dst, src)\<close> on a reader: the bytes written to \<open>dst\<close>, and \<open>src\<close> drained;
      \<open>None\<close> when \<open>src\<close> is no reader\<close>
  "io_Copy h a =
     (case lookup h a of
        None \<Rightarrow> None
      | Some r \<Rightarrow> Some (unread r, h[a := r\<lparr>reader_i := length (reader_s r)\<rparr>]))"

datatype Body = NoBody | NopCloser nat

type_synonym Header = "string \<rightharpoonup> string list"

text \<open>Of \<open>http.Request\<close>, the fields the program and its callers depend on.\<close>

record Request =
  Header :: Header
  Body :: Body
  ContentLength :: int

definition Header_Add :: "(string \<Rightarrow> string) \<Rightarrow> Header \<Rightarrow> string \<Rightarrow> string \<Rightarrow> Header" where
  \<comment> \<open>\<open>h.Add(key, value)\<close>: the value is appended to the values of the canonical key\<close>
  "Header_Add canon h key v =
     h(canon key \<mapsto> (case h (canon key) of None \<Rightarrow> [] | Some vs \<Rightarrow> vs) @ [v])"

definition http_NewRequest :: "'u library \<Rightarrow> string \<Rightarrow> string \<Rightarrow> nat \<Rightarrow> heap \<Rightarrow> Request option" where
  \<comment> \<open>\<open>http.NewRequest(method, url, body)\<close> for a \<open>*strings.Reader\<close> body: the content length
      is what the reader has left, and an empty body becomes \<open>http.NoBody\<close>\<close>
  "http_NewRequest L method url body h =
     (if NewRequest_rejects L method url then None
      else
        (let n = (case lookup h body of None \<Rightarrow> 0 | Some r \<Rightarrow> length (unread r))
         in Some \<lparr>Header = Map.empty,
                  Body = (if n = 0 then NoBody else NopCloser body),
                  ContentLength = int n\<rparr>))"

definition transmitted :: "heap \<Rightarrow> Request \<Rightarrow> string" where
  \<comment> \<open>the body bytes a transport sends for the request: what its body still yields\<close>
  "transmitted h req =
     (case Body req of
        NoBody \<Rightarrow> []
      | NopCloser a \<Rightarrow> (case lookup h a of None \<Rightarrow> [] | Some r \<Rightarrow> unread r))"


section \<open>crypto/sha256 and encoding/hex\<close>

text \<open>
  \<open>sha256.New\<close>, \<open>Write\<close> and \<open>Sum(nil)\<close> compute the SHA-256 digest of FIPS 180-4 of the
  bytes written: the message is padded with \<open>0x80\<close>, zeros up to 56 modulo 64 and its bit
  length, and each 64-byte block goes through the message schedule and 64 rounds.
\<close>

type_synonym byte = "8 word"
type_synonym uint32 = "32 word"

definition K256 :: "uint32 list" where
  "K256 = [
   0x428a2f98, 0x71374491, 0xb5c0fbcf, 0xe9b5dba5, 0x3956c25b, 0x59f111f1, 0x923f82a4, 0xab1c5ed5,
   0xd807aa98, 0x12835b01, 0x243185be, 0x550c7dc3, 0x72be5d74, 0x80deb1fe, 0x9bdc06a7, 0xc19bf174,
   0xe49b69c1, 0xefbe4786, 0x0fc19dc6, 0x240ca1cc, 0x2de92c6f, 0x4a7484aa, 0x5cb0a9dc, 0x76f988da,
   0x983e5152, 0xa831c66d, 0xb00327c8, 0xbf597fc7, 0xc6e00bf3, 0xd5a79147, 0x06ca6351, 0x14292967,
   0x27b70a85, 0x2e1b2138, 0x4d2c6dfc, 0x53380d13, 0x650a7354, 0x766a0abb, 0x81c2c92e, 0x92722c85,
   0xa2bfe8a1, 0xa81a664b, 0xc24b8b70, 0xc76c51a3, 0xd192e819, 0xd6990624, 0xf40e3585, 0x106aa070,
   0x19a4c116, 0x1e376c08, 0x2748774c, 0x34b0bcb5, 0x391c0cb3, 0x4ed8aa4a, 0x5b9cca4f, 0x682e6ff3,
   0x748f82ee, 0x78a5636f, 0x84c87814, 0x8cc70208, 0x90befffa, 0xa4506ceb, 0xbef9a3f7, 0xc67178f2]"

definition init256 :: "uint32 list" where
  "init256 = [0x6a09e667, 0xbb67ae85, 0x3c6ef372, 0xa54ff53a,
              0x510e527f, 0x9b05688c, 0x1f83d9ab, 0x5be0cd19]"

definition be32 :: "byte \<Rightarrow> byte \<Rightarrow> byte \<Rightarrow> byte \<Rightarrow> uint32" where
  "be32 a b c d = push_bit 24 (ucast a) OR push_bit 16 (ucast b) OR push_bit 8 (ucast c) OR ucast d"

fun load_words :: "byte list \<Rightarrow> uint32 list" where
  "load_words (a # b # c # d # p) = be32 a b c d # load_words p"
| "load_words _ = []"

fun schedule :: "nat \<Rightarrow> uint32 list \<Rightarrow> uint32 list" where
  "schedule 0 w = w"
| "schedule (Suc n) w =
     (let i = length w;
          v1 = w ! (i - 2);
          t1 = word_rotr 17 v1 XOR word_rotr 19 v1 XOR drop_bit 10 v1;
          v2 = w ! (i - 15);
          t2 = word_rotr 7 v2 XOR word_rotr 18 v2 XOR drop_bit 3 v2
      in schedule n (w @ [t1 + w ! (i - 7) + t2 + w ! (i - 16)]))"

fun rounds :: "(uint32 \<times> uint32) list \<Rightarrow> uint32 list \<Rightarrow> uint32 list" where
  "rounds [] st = st"
| "rounds ((k, wi) # kws) [a, b, c, d, e, f, g, h] =
     (let t1 = h + (word_rotr 6 e XOR word_rotr 11 e XOR word_rotr 25 e)
                 + ((e AND f) XOR (NOT e AND g)) + k + wi;
          t2 = (word_rotr 2 a XOR word_rotr 13 a XOR word_rotr 22 a)
                 + ((a AND b) XOR (a AND c) XOR (b AND c))
      in rounds kws [t1 + t2, a, b, c, d + t1, e, f, g])"
| "rounds _ st = st"

definition block :: "uint32 list \<Rightarrow> byte list \<Rightarrow> uint32 list" where
  "block hs p = map2 (+) hs (rounds (zip K256 (schedule 48 (load_words p))) hs)"

function blocks :: "uint32 list \<Rightarrow> byte list \<Rightarrow> uint32 list" where
  "blocks hs p = (if length p < 64 then hs else blocks (block hs (take 64 p)) (drop 64 p))"
  by pat_completeness auto
termination
  by (relation "measure (\<lambda>(hs, p). length p)") auto

declare blocks.simps [simp del]

definition padding :: "nat \<Rightarrow> byte list" where
  "padding n =
     0x80 # replicate ((119 - n mod 64) mod 64) 0 @
     map (\<lambda>i. ucast (drop_bit (8 * (7 - i)) (word_of_nat (8 * n) :: 64 word))) [0..<8]"

definition Sum256 :: "byte list \<Rightarrow> byte list" where
  "Sum256 m =
     concat (map (\<lambda>h. map (\<lambda>i. ucast (drop_bit (8 * (3 - i)) h)) [0..<4])
       (blocks init256 (m @ padding (length m))))"

definition hextable :: string where
  "hextable = ''0123456789abcdef''"

definition EncodeToString :: "byte list \<Rightarrow> string" where
  \<comment> \<open>\<open>hex.EncodeToString\<close>: two lower-case digits a byte\<close>
  "EncodeToString bs =
     concat (map (\<lambda>v. [hextable ! unat (drop_bit 4 v), hextable ! unat (v AND 0x0f)]) bs)"

definition payload_hash :: "string \<Rightarrow> string" where
  \<comment> \<open>\<open>hex.EncodeToString(h.Sum(nil))\<close> after the bytes \<open>p\<close> were copied into \<open>h\<close>\<close>
  "payload_hash p = EncodeToString (Sum256 (map of_char p))"


section \<open>buildRequest\<close>

text \<open>
  The loop over the lines of the \<open>-headers\<close> flag (action.go, lines 121 to 126): both
  \<open>strings.Split(header, ":")[0]\<close> and \<open>strings.Split(header, ":")[1]\<close> are slice
  indexings, and the key and the value are trimmed of the cutset \<open>" "\<close>.
\<close>

fun add_headers :: "(string \<Rightarrow> string) \<Rightarrow> string list \<Rightarrow> Header \<Rightarrow> abort + Header" where
  "add_headers canon [] hdr = Inr hdr"
| "add_headers canon (header # headers) hdr =
     (case index (Split header (CHR '':'')) 0 of
        Inl e \<Rightarrow> Inl e
      | Inr k \<Rightarrow>
          (case index (Split header (CHR '':'')) 1 of
             Inl e \<Rightarrow> Inl e
           | Inr v \<Rightarrow>
               add_headers canon headers (Header_Add canon hdr (Trim k '' '') (Trim v '' ''))))"

text \<open>
  \<open>headerList\<close> is the value of the global flag \<open>-headers\<close> (default \<open>""\<close>), which
  \<open>buildRequestWithBodyReader\<close> reads. The result is the request, the payload hash and
  the heap, whose body reader the hashing has drained.
\<close>

definition buildRequestWithBodyReader ::
  "'u library \<Rightarrow> string \<Rightarrow> string \<Rightarrow> string \<Rightarrow> string \<Rightarrow> nat \<Rightarrow> heap
     \<Rightarrow> abort + ((Request \<times> string) \<times> heap)" where
  "buildRequestWithBodyReader L headerList lambdaURL requestMethod region requestBody h =
     (case http_NewRequest L requestMethod lambdaURL requestBody h of
        None \<Rightarrow> Inl (OsExit 1)
      | Some req \<Rightarrow>
          (case add_headers (CanonicalMIMEHeaderKey L) (Split headerList (CHR 0x0A)) (Header req) of
             Inl e \<Rightarrow> Inl e
           | Inr hdr \<Rightarrow>
               (case io_Copy h requestBody of
                  None \<Rightarrow> Inl NilPointerDereference
                | Some (p, h') \<Rightarrow> Inr ((req\<lparr>Header := hdr\<rparr>, payload_hash p), h'))))"

definition buildRequest ::
  "'u library \<Rightarrow> string \<Rightarrow> string \<Rightarrow> string \<Rightarrow> string \<Rightarrow> string \<Rightarrow> heap
     \<Rightarrow> abort + ((Request \<times> string) \<times> heap)" where
  "buildRequest L headerList lambdaURL requestMethod region requestBody h =
     (let (reader, h') = strings_NewReader requestBody h
      in buildRequestWithBodyReader L headerList lambdaURL requestMethod region reader h')"


section \<open>guessAWSRegion\<close>

text \<open>
  The regular expressions that \<open>awsRegionRegExp\<close> is built from, and Go's matching of
  them: \<open>rmatch r s\<close> lists what is left of \<open>s\<close> behind each match of \<open>r\<close> at the start of
  \<open>s\<close>, in the order a backtracking search finds them (the left alternative first, an
  optional part first taken, then skipped).
\<close>

datatype regex =
    Str string
  | Digit
  | Cat regex regex
  | Alt regex regex
  | Opt regex
  | Group regex

definition digits :: string where
  "digits = ''0123456789''"

fun rmatch :: "regex \<Rightarrow> string \<Rightarrow> string list" where
  "rmatch (Str w) s = (if take (length w) s = w then [drop (length w) s] else [])"
| "rmatch Digit s = (case s of [] \<Rightarrow> [] | c # t \<Rightarrow> if c \<in> set digits then [t] else [])"
| "rmatch (Cat a b) s = concat (map (rmatch b) (rmatch a s))"
| "rmatch (Alt a b) s = rmatch a s @ rmatch b s"
| "rmatch (Opt a) s = rmatch a s @ [s]"
| "rmatch (Group a) s = rmatch a s"

text \<open>
  \<open>r.FindStringSubmatch(s)\<close> is nil when \<open>r\<close> matches nowhere in \<open>s\<close>; otherwise its element
  0 is the text of the leftmost match, the first one the search finds there.
  \<open>FindStringSubmatch0\<close> is that element.
\<close>

fun FindStringSubmatch0 :: "regex \<Rightarrow> string \<Rightarrow> string option" where
  "FindStringSubmatch0 r [] = (case rmatch r [] of [] \<Rightarrow> None | rest # _ \<Rightarrow> Some [])"
| "FindStringSubmatch0 r (c # s) =
     (case rmatch r (c # s) of
        [] \<Rightarrow> FindStringSubmatch0 r s
      | rest # _ \<Rightarrow> Some (take (length (c # s) - length rest) (c # s)))"

definition awsRegionRegExp :: regex where
  \<comment> \<open>\<^verbatim>\<open>(us(-gov)?|ap|ca|cn|eu|sa)-(central|(north|south)?(east|west)?)-\d\<close>\<close>
  "awsRegionRegExp =
     Cat (Group (Alt (Cat (Str ''us'') (Opt (Group (Str ''-gov''))))
                (Alt (Str ''ap'') (Alt (Str ''ca'') (Alt (Str ''cn'') (Alt (Str ''eu'') (Str ''sa'')))))))
    (Cat (Str ''-'')
    (Cat (Group (Alt (Str ''central'')
                     (Cat (Opt (Group (Alt (Str ''north'') (Str ''south''))))
                          (Opt (Group (Alt (Str ''east'') (Str ''west'')))))))
    (Cat (Str ''-'') Digit)))"

definition malformed :: string where
  "malformed = ''lambda function URL is malformed, impossible to guess AWS region''"

text \<open>
  The result pair is the region and the error (\<open>None\<close> for nil). The error of \<open>url.Parse\<close>
  is dropped, and \<open>u.Hostname()\<close> reads through \<open>u\<close>.
\<close>

definition guessAWSRegion :: "'u library \<Rightarrow> string \<Rightarrow> abort + (string \<times> string option)" where
  "guessAWSRegion L lambdaURL =
     (case url_Parse L lambdaURL of
        None \<Rightarrow> Inl NilPointerDereference
      | Some u \<Rightarrow>
          (case FindStringSubmatch0 awsRegionRegExp (Hostname L u) of
             None \<Rightarrow> Inr ([], Some malformed)
           | Some result0 \<Rightarrow> Inr (result0, None)))"


section \<open>main, up to the call of SignHTTP\<close>

text \<open>
  The flags (\<open>-lambda-url\<close>, \<open>-body\<close>, \<open>-method\<close>, \<open>-headers\<close>) and the environment
  variables of one run; an unset variable reads as the empty string.
\<close>

record invocation =
  flag_lambda_url :: string
  flag_body :: string
  flag_method :: string
  flag_headers :: string
  env_AWS_REGION :: string
  env_AWS_ACCESS_KEY_ID :: string
  env_AWS_SECRET_ACCESS_KEY :: string
  env_AWS_SESSION_TOKEN :: string

record Credentials =
  AccessKeyID :: string
  SecretAccessKey :: string
  SessionToken :: string

text \<open>The arguments \<open>main\<close> gives to \<open>signer.SignHTTP\<close>, the time apart.\<close>

record SignHTTP_call =
  arg_credentials :: Credentials
  arg_req :: Request
  arg_bodyHash :: string
  arg_service :: string
  arg_region :: string

definition resolve_region :: "'u library \<Rightarrow> invocation \<Rightarrow> abort + string" where
  \<comment> \<open>lines 49 to 59\<close>
  "resolve_region L run =
     (if env_AWS_REGION run \<noteq> [] then Inr (env_AWS_REGION run)
      else
        (case guessAWSRegion L (flag_lambda_url run) of
           Inl e \<Rightarrow> Inl e
         | Inr (region, err) \<Rightarrow> (if err \<noteq> None then Inl (OsExit 1) else Inr region)))"

definition main_to_SignHTTP :: "'u library \<Rightarrow> invocation \<Rightarrow> abort + (SignHTTP_call \<times> heap)" where
  "main_to_SignHTTP L run =
     (if flag_lambda_url run = [] then Inl (OsExit 1)
      else
        (case resolve_region L run of
           Inl e \<Rightarrow> Inl e
         | Inr region \<Rightarrow>
             if env_AWS_ACCESS_KEY_ID run = [] then Inl (OsExit 1)
             else if env_AWS_SECRET_ACCESS_KEY run = [] then Inl (OsExit 1)
             else
               (let creds =
                      (if env_AWS_SESSION_TOKEN run = []
                       then \<lparr>AccessKeyID = env_AWS_ACCESS_KEY_ID run,
                             SecretAccessKey = env_AWS_SECRET_ACCESS_KEY run,
                             SessionToken = []\<rparr>
                       else \<lparr>AccessKeyID = env_AWS_ACCESS_KEY_ID run,
                             SecretAccessKey = env_AWS_SECRET_ACCESS_KEY run,
                             SessionToken = env_AWS_SESSION_TOKEN run\<rparr>)
                in
                  (case buildRequest L (flag_headers run) (flag_lambda_url run) (flag_method run)
                          region (flag_body run) [] of
                     Inl e \<Rightarrow> Inl e
                   | Inr ((r, hash), h) \<Rightarrow>
                       (let (reader, h') = strings_NewReader (flag_body run) h
                        in Inr (\<lparr>arg_credentials = creds, arg_req = r\<lparr>Body := NopCloser reader\<rparr>,
                                  arg_bodyHash = hash, arg_service = ''lambda'',
                                  arg_region = region\<rparr>,
                                h'))))))"


section \<open>The region token grammar of the specification\<close>

text \<open>
  The words a regular expression matches, and the grammar as the specification words it:
  a partition prefix, a direction (\<open>central\<close>, or an optional \<open>north\<close>/\<open>south\<close> followed by
  an optional \<open>east\<close>/\<open>west\<close>), a hyphen and one digit. The hyphen between the prefix and
  the direction is the one of \<open>eu-west-1\<close>, the specification's own example of a token.
\<close>

fun lang :: "regex \<Rightarrow> string set" where
  "lang (Str w) = {w}"
| "lang Digit = {[c] | c. c \<in> set digits}"
| "lang (Cat a b) = {u @ v | u v. u \<in> lang a \<and> v \<in> lang b}"
| "lang (Alt a b) = lang a \<union> lang b"
| "lang (Opt a) = insert [] (lang a)"
| "lang (Group a) = lang a"

definition spec_partition_prefixes :: "string set" where
  "spec_partition_prefixes = {''us'', ''us-gov'', ''ap'', ''ca'', ''cn'', ''eu'', ''sa''}"

definition spec_directions :: "string set" where
  "spec_directions =
     insert ''central''
       {ns @ ew | ns ew. ns \<in> {[], ''north'', ''south''} \<and> ew \<in> {[], ''east'', ''west''}}"

definition spec_region_token :: "string \<Rightarrow> bool" where
  "spec_region_token t =
     (\<exists>p d c. p \<in> spec_partition_prefixes \<and> d \<in> spec_directions \<and> c \<in> set digits \<and>
        t = p @ ''-'' @ d @ ''-'' @ [c])"

text \<open>The first and the third group of \<open>awsRegionRegExp\<close>, named for the proofs.\<close>

definition partition_re :: regex where
  "partition_re =
     Alt (Cat (Str ''us'') (Opt (Group (Str ''-gov''))))
         (Alt (Str ''ap'') (Alt (Str ''ca'') (Alt (Str ''cn'') (Alt (Str ''eu'') (Str ''sa'')))))"

definition direction_re :: regex where
  "direction_re =
     Alt (Str ''central'')
         (Cat (Opt (Group (Alt (Str ''north'') (Str ''south''))))
              (Opt (Group (Alt (Str ''east'') (Str ''west'')))))"


section \<open>Concrete inputs\<close>

text \<open>
  To run the model on an input, the library parameters need values. \<open>plain_library\<close>
  agrees with Go's library on the inputs used below: a URL \<open>scheme://host/path\<close> of
  printable ASCII parses and has the host between \<open>//\<close> and the next \<open>/\<close>; a URL with
  an ASCII control character is rejected by \<open>url.Parse\<close> and by \<open>http.NewRequest\<close>, as
  is a method with a space; a header key of letters that starts with its only capital
  is in canonical form already.
\<close>

definition is_CTL :: "char \<Rightarrow> bool" where
  "is_CTL c = ((of_char c :: nat) < 0x20 \<or> (of_char c :: nat) = 0x7f)"

fun after_slashes :: "string \<Rightarrow> string" where
  "after_slashes (a # b # s) =
     (if a = CHR ''/'' \<and> b = CHR ''/'' then s else after_slashes (b # s))"
| "after_slashes _ = []"

definition plain_library :: "string library" where
  "plain_library =
     \<lparr>url_Parse = (\<lambda>rawURL. if list_ex is_CTL rawURL then None else Some rawURL),
      Hostname = (\<lambda>u. takeWhile (\<lambda>c. c \<noteq> CHR ''/'') (after_slashes u)),
      NewRequest_rejects = (\<lambda>method url. list_ex (\<lambda>c. c = CHR '' '') method \<or> list_ex is_CTL url),
      CanonicalMIMEHeaderKey = (\<lambda>key. key)\<rparr>"

definition some_id_url :: string where
  \<comment> \<open>the URL of \<open>TestSignRequest\<close> and of the first case of \<open>TestGuessAWSRegion\<close>\<close>
  "some_id_url = ''https://some-id.lambda-url.eu-west-1.on.aws/''"

definition malformed_url :: string where
  \<comment> \<open>the URL of \<open>TestMalformedLambdaURL\<close>\<close>
  "malformed_url = ''https://some-id.lambda-url.eu-us-2.on.aws/''"

definition example_run :: invocation where
  "example_run =
     \<lparr>flag_lambda_url = some_id_url, flag_body = ''{}'', flag_method = ''POST'',
      flag_headers = ''Accept: *'', env_AWS_REGION = [], env_AWS_ACCESS_KEY_ID = ''AKID'',
      env_AWS_SECRET_ACCESS_KEY = ''SECRET'', env_AWS_SESSION_TOKEN = ''SESSION''\<rparr>"

text \<open>What \<open>main\<close> gives to \<open>SignHTTP\<close> in that run, and the heap then.\<close>

definition example_call :: SignHTTP_call where
  "example_call =
     \<lparr>arg_credentials =
        \<lparr>AccessKeyID = ''AKID'', SecretAccessKey = ''SECRET'', SessionToken = ''SESSION''\<rparr>,
      arg_req = \<lparr>Header = [''Accept'' \<mapsto> [''*'']], Body = NopCloser 1, ContentLength = 2\<rparr>,
      arg_bodyHash = payload_hash ''{}'', arg_service = ''lambda'', arg_region = ''eu-west-1''\<rparr>"

definition example_heap :: heap where
  "example_heap = [\<lparr>reader_s = ''{}'', reader_i = 2\<rparr>, \<lparr>reader_s = ''{}'', reader_i = 0\<rparr>]"


section \<open>Splitting and indexing\<close>

lemma Split_Nil [simp]: "Split [] sep = [[]]"
  by (simp add: Split.simps)

lemma Split_Cons [simp]:
  "Split (c # s) sep =
     (if c = sep then [] # Split s sep else (c # hd (Split s sep)) # tl (Split s sep))"
proof -
  have c_eq: "Split (c # s) sep =
      (case dropWhile (\<lambda>c. c \<noteq> sep) (c # s) of
         [] \<Rightarrow> [c # s]
       | _ # t \<Rightarrow> takeWhile (\<lambda>c. c \<noteq> sep) (c # s) # Split t sep)"
    by (rule Split.simps)
  have s_eq: "Split s sep =
      (case dropWhile (\<lambda>c. c \<noteq> sep) s of
         [] \<Rightarrow> [s]
       | _ # t \<Rightarrow> takeWhile (\<lambda>c. c \<noteq> sep) s # Split t sep)"
    by (rule Split.simps)
  show ?thesis
  proof (cases "c = sep")
    case True
    with c_eq show ?thesis by simp
  next
    case False
    show ?thesis
    proof (cases "dropWhile (\<lambda>c. c \<noteq> sep) s")
      case Nil
      show ?thesis by (simp add: c_eq s_eq Nil False)
    next
      case (Cons x t)
      show ?thesis by (simp add: c_eq s_eq Cons False)
    qed
  qed
qed

lemma Split_no_sep: "sep \<notin> set s \<Longrightarrow> Split s sep = [s]"
  by (induction s) auto

lemma length_Split: "length (Split s sep) = Suc (count_list s sep)"
  by (induction s) auto

lemma Split_not_Nil: "Split s sep \<noteq> []"
  using length_Split [of s sep] by auto

lemma index_Split_0: "index (Split s sep) 0 = Inr (hd (Split s sep))"
  using Split_not_Nil [of s sep] by (cases "Split s sep") (auto simp: index_def)

lemma index_Split_1:
  "index (Split s sep) (Suc 0) =
     (if sep \<in> set s then Inr (Split s sep ! 1) else Inl (IndexOutOfRange 1 1))"
  by (auto simp: index_def length_Split Split_no_sep count_list_0_iff)


section \<open>The header loop and buildRequest\<close>

lemma add_headers_panics:
  "\<exists>l \<in> set hs. CHR '':'' \<notin> set l \<Longrightarrow> add_headers canon hs h = Inl (IndexOutOfRange 1 1)"
  by (induction hs arbitrary: h) (auto simp: index_Split_0 index_Split_1)

lemma add_headers_returns:
  "\<forall>l \<in> set hs. CHR '':'' \<in> set l \<Longrightarrow> \<exists>h'. add_headers canon hs h = Inr h'"
  by (induction hs arbitrary: h) (auto simp: index_Split_0 index_Split_1)

text \<open>
  \<open>buildRequest\<close> in one equation: the reader it makes sits at the end of the heap, the
  hash is taken over the whole body, and the reader is left drained.
\<close>

lemma buildRequest_eq:
  "buildRequest L headerList url m region body h =
     (if NewRequest_rejects L m url then Inl (OsExit 1)
      else
        (case add_headers (CanonicalMIMEHeaderKey L) (Split headerList (CHR 0x0A)) Map.empty of
           Inl e \<Rightarrow> Inl e
         | Inr hdr \<Rightarrow>
             Inr ((\<lparr>Header = hdr, Body = (if body = [] then NoBody else NopCloser (length h)),
                    ContentLength = int (length body)\<rparr>, payload_hash body),
                  h @ [\<lparr>reader_s = body, reader_i = length body\<rparr>])))"
  by (simp add: buildRequest_def buildRequestWithBodyReader_def strings_NewReader_def
      http_NewRequest_def lookup_def unread_def io_Copy_def Let_def split: sum.split)

lemma plain_canon: "CanonicalMIMEHeaderKey plain_library = (\<lambda>key. key)"
  by (simp add: plain_library_def)

lemma some_id_url_not_empty: "some_id_url \<noteq> []"
  by (simp add: some_id_url_def)

lemma plain_accepts: "\<not> NewRequest_rejects plain_library ''POST'' some_id_url"
  by (simp add: plain_library_def some_id_url_def is_CTL_def)

lemma add_headers_Accept:
  "add_headers (\<lambda>key. key) (Split ''Accept: *'' (CHR 0x0A)) Map.empty = Inr [''Accept'' \<mapsto> [''*'']]"
  by (simp add: index_def Trim_def Header_Add_def)

lemma buildRequest_Accept:
  "buildRequest plain_library ''Accept: *'' some_id_url ''POST'' region body h =
     Inr ((\<lparr>Header = [''Accept'' \<mapsto> [''*'']],
            Body = (if body = [] then NoBody else NopCloser (length h)),
            ContentLength = int (length body)\<rparr>, payload_hash body),
          h @ [\<lparr>reader_s = body, reader_i = length body\<rparr>])"
  unfolding buildRequest_eq plain_canon add_headers_Accept using plain_accepts by simp


section \<open>The payload hash of the empty body\<close>

lemma payload_hash_empty:
  "payload_hash [] = ''e3b0c44298fc1c149afbf4c8996fb92427ae41e4649b934ca495991b7852b855''"
  by code_simp


section \<open>The matcher finds the leftmost word of the language\<close>

lemma rmatch_iff: "rest \<in> set (rmatch r s) \<longleftrightarrow> (\<exists>w \<in> lang r. s = w @ rest)"
proof (induction r arbitrary: s rest)
  case (Str w)
  show ?case by (auto simp: append_eq_conv_conj) (metis append_take_drop_id)
next
  case Digit
  show ?case by (cases s) auto
next
  case (Cat a b)
  have "rest \<in> set (rmatch (Cat a b) s) \<longleftrightarrow>
        (\<exists>mid. mid \<in> set (rmatch a s) \<and> rest \<in> set (rmatch b mid))"
    by auto
  also have "\<dots> \<longleftrightarrow> (\<exists>mid. (\<exists>u \<in> lang a. s = u @ mid) \<and> (\<exists>v \<in> lang b. mid = v @ rest))"
    by (simp only: Cat.IH)
  also have "\<dots> \<longleftrightarrow> (\<exists>w \<in> lang (Cat a b). s = w @ rest)"
    by fastforce
  finally show ?case .
next
  case (Alt a b)
  then show ?case by auto
next
  case (Opt a)
  then show ?case by auto
next
  case (Group a)
  then show ?case by simp
qed

lemma rmatch_Nil_iff: "rmatch r s = [] \<longleftrightarrow> (\<forall>t post. s = t @ post \<longrightarrow> t \<notin> lang r)"
proof -
  have "rmatch r s = [] \<longleftrightarrow> (\<forall>rest. rest \<notin> set (rmatch r s))"
    by (cases "rmatch r s") auto
  then show ?thesis by (auto simp: rmatch_iff)
qed

lemma rmatch_Cons:
  assumes "rmatch r s = rest # others"
  shows "\<exists>t. t \<in> lang r \<and> s = t @ rest \<and> take (length s - length rest) s = t"
proof -
  have "rest \<in> set (rmatch r s)" using assms by simp
  then obtain t where "t \<in> lang r" "s = t @ rest" by (auto simp: rmatch_iff)
  then show ?thesis by auto
qed

lemma no_match_at_head:
  assumes "rmatch r (c # s) = []"
  shows "(\<forall>pre t post. c # s = pre @ t @ post \<longrightarrow> t \<notin> lang r) \<longleftrightarrow>
         (\<forall>pre t post. s = pre @ t @ post \<longrightarrow> t \<notin> lang r)"
proof
  assume a: "\<forall>pre t post. c # s = pre @ t @ post \<longrightarrow> t \<notin> lang r"
  show "\<forall>pre t post. s = pre @ t @ post \<longrightarrow> t \<notin> lang r"
  proof (intro allI impI)
    fix pre t post assume "s = pre @ t @ post"
    then have "c # s = (c # pre) @ t @ post" by simp
    with a show "t \<notin> lang r" by blast
  qed
next
  assume a: "\<forall>pre t post. s = pre @ t @ post \<longrightarrow> t \<notin> lang r"
  show "\<forall>pre t post. c # s = pre @ t @ post \<longrightarrow> t \<notin> lang r"
  proof (intro allI impI)
    fix pre t post assume e: "c # s = pre @ t @ post"
    show "t \<notin> lang r"
    proof (cases pre)
      case Nil
      with e assms show ?thesis by (auto simp: rmatch_Nil_iff)
    next
      case (Cons x pre')
      with e have "s = pre' @ t @ post" by simp
      with a show ?thesis by blast
    qed
  qed
qed

lemma Find_None:
  "FindStringSubmatch0 r s = None \<longleftrightarrow> (\<forall>pre t post. s = pre @ t @ post \<longrightarrow> t \<notin> lang r)"
proof (induction s)
  case Nil
  show ?case
  proof (cases "rmatch r []")
    case Nil
    moreover from Nil have "\<forall>pre t post. [] = pre @ t @ post \<longrightarrow> t \<notin> lang r"
      by (simp add: rmatch_Nil_iff)
    ultimately show ?thesis by simp
  next
    case (Cons rest others)
    from rmatch_Cons [OF this] have "[] \<in> lang r" by auto
    then have "\<not> (\<forall>pre t post. [] = pre @ t @ post \<longrightarrow> t \<notin> lang r)" by simp
    with Cons show ?thesis by simp
  qed
next
  case (Cons c s)
  show ?case
  proof (cases "rmatch r (c # s)")
    case Nil
    with no_match_at_head [OF Nil] Cons.IH show ?thesis by simp
  next
    case (Cons rest others)
    from rmatch_Cons [OF this] obtain t where "t \<in> lang r" "c # s = [] @ t @ rest" by auto
    then have "\<not> (\<forall>pre t post. c # s = pre @ t @ post \<longrightarrow> t \<notin> lang r)" by blast
    with Cons show ?thesis by simp
  qed
qed

lemma Find_Some:
  "FindStringSubmatch0 r s = Some t \<Longrightarrow>
     \<exists>pre post. s = pre @ t @ post \<and> t \<in> lang r \<and>
       (\<forall>pre' t' post'. s = pre' @ t' @ post' \<and> t' \<in> lang r \<longrightarrow> length pre \<le> length pre')"
proof (induction s)
  case Nil
  then have "rmatch r [] \<noteq> []" and t: "t = []" by (auto split: list.splits)
  then obtain w rest where "w \<in> lang r" "[] = w @ rest"
    by (auto simp: rmatch_Nil_iff)
  then have "[] \<in> lang r" by simp
  with t show ?case by auto
next
  case (Cons c s)
  show ?case
  proof (cases "rmatch r (c # s)")
    case Nil
    with Cons.prems have "FindStringSubmatch0 r s = Some t" by simp
    from Cons.IH [OF this] obtain pre post where
      s: "s = pre @ t @ post" and t: "t \<in> lang r" and
      least: "\<forall>pre' t' post'. s = pre' @ t' @ post' \<and> t' \<in> lang r \<longrightarrow> length pre \<le> length pre'"
      by blast
    have "\<forall>pre' t' post'. c # s = pre' @ t' @ post' \<and> t' \<in> lang r \<longrightarrow>
            length (c # pre) \<le> length pre'"
    proof (intro allI impI)
      fix pre' t' post' assume e: "c # s = pre' @ t' @ post' \<and> t' \<in> lang r"
      show "length (c # pre) \<le> length pre'"
      proof (cases pre')
        case Nil
        with e \<open>rmatch r (c # s) = []\<close> show ?thesis by (auto simp: rmatch_Nil_iff)
      next
        case (Cons x p)
        with e have "s = p @ t' @ post' \<and> t' \<in> lang r" by simp
        with least have "length pre \<le> length p" by blast
        with Cons show ?thesis by simp
      qed
    qed
    moreover have "c # s = (c # pre) @ t @ post" using s by simp
    ultimately show ?thesis using t by blast
  next
    case (Cons rest others)
    from rmatch_Cons [OF this] obtain w where
      w: "w \<in> lang r" "c # s = w @ rest" "take (length (c # s) - length rest) (c # s) = w"
      by auto
    from Cons Cons.prems w(3) have "t = w" by simp
    with w have "c # s = [] @ t @ rest" "t \<in> lang r" by simp_all
    then show ?thesis by (metis length_0_conv le0 list.size(3))
  qed
qed


section \<open>awsRegionRegExp matches the tokens of the grammar\<close>

lemma awsRegionRegExp_parts:
  "awsRegionRegExp =
     Cat (Group partition_re) (Cat (Str ''-'') (Cat (Group direction_re) (Cat (Str ''-'') Digit)))"
  by (simp add: awsRegionRegExp_def partition_re_def direction_re_def)

lemma conc_UN: "{u @ v | u v. u \<in> A \<and> v \<in> B} = (\<Union>u\<in>A. (\<lambda>v. u @ v) ` B)"
  by blast

lemma lang_Cat: "lang (Cat a b) = (\<Union>u\<in>lang a. (\<lambda>v. u @ v) ` lang b)"
  by (simp add: conc_UN)

lemma lang_partition_re: "lang partition_re = spec_partition_prefixes"
  unfolding partition_re_def spec_partition_prefixes_def
  by (simp add: lang_Cat insert_commute del: lang.simps(3))

lemma spec_directions_eq:
  "spec_directions = {[], ''east'', ''west'', ''north'', ''south'', ''central'',
     ''northeast'', ''northwest'', ''southeast'', ''southwest''}"
  unfolding spec_directions_def conc_UN by (simp add: insert_commute)

lemma lang_direction_re: "lang direction_re = spec_directions"
  unfolding direction_re_def spec_directions_eq
  by (simp add: lang_Cat insert_commute del: lang.simps(3))

lemma lang_awsRegionRegExp: "t \<in> lang awsRegionRegExp \<longleftrightarrow> spec_region_token t"
proof -
  have "t \<in> lang awsRegionRegExp \<longleftrightarrow>
        (\<exists>p d c. p \<in> lang partition_re \<and> d \<in> lang direction_re \<and> c \<in> set digits \<and>
           t = p @ ''-'' @ d @ ''-'' @ [c])"
    unfolding awsRegionRegExp_parts by (simp del: append.simps) blast
  then show ?thesis
    by (simp add: lang_partition_re lang_direction_re spec_region_token_def)
qed

lemma Find_token_None:
  "FindStringSubmatch0 awsRegionRegExp s = None \<longleftrightarrow>
     \<not> (\<exists>pre t post. s = pre @ t @ post \<and> spec_region_token t)"
  by (auto simp: Find_None lang_awsRegionRegExp)

lemma Find_token_Some:
  assumes "FindStringSubmatch0 awsRegionRegExp s = Some t"
  shows "\<exists>pre post. s = pre @ t @ post \<and> spec_region_token t \<and>
           (\<forall>pre' t' post'. s = pre' @ t' @ post' \<and> spec_region_token t' \<longrightarrow> length pre \<le> length pre')"
  using Find_Some [OF assms] by (simp add: lang_awsRegionRegExp)

text \<open>
  No token is a proper prefix of another: the digit that ends a token is its only one.
  So the token that starts at a given place of a string is unique.
\<close>

lemma prefix_digit_free: "p \<in> spec_partition_prefixes \<Longrightarrow> x \<in> set p \<Longrightarrow> x \<notin> set digits"
  by (auto simp: spec_partition_prefixes_def digits_def)

lemma direction_digit_free: "d \<in> spec_directions \<Longrightarrow> x \<in> set d \<Longrightarrow> x \<notin> set digits"
  by (auto simp: spec_directions_eq digits_def)

lemma token_shape:
  assumes "spec_region_token t"
  obtains b c where "t = b @ [c]" "c \<in> set digits" "\<forall>x \<in> set b. x \<notin> set digits"
proof -
  from assms obtain p d c where
    p: "p \<in> spec_partition_prefixes" and d: "d \<in> spec_directions" and c: "c \<in> set digits" and
    t: "t = p @ ''-'' @ d @ ''-'' @ [c]"
    unfolding spec_region_token_def by blast
  have "CHR ''-'' \<notin> set digits" by (simp add: digits_def)
  with p d have "\<forall>x \<in> set (p @ ''-'' @ d @ ''-''). x \<notin> set digits"
    by (auto dest: prefix_digit_free direction_digit_free)
  moreover have "t = (p @ ''-'' @ d @ ''-'') @ [c]" using t by simp
  ultimately show ?thesis using c that by blast
qed

lemma first_digit:
  assumes "\<forall>x \<in> set b. x \<notin> set digits" and "c \<in> set digits"
  shows "takeWhile (\<lambda>x. x \<notin> set digits) (b @ c # r) = b"
  using assms by (simp add: takeWhile_append2)

lemma token_prefix_free:
  assumes "spec_region_token t" and "spec_region_token t'" and "t @ r = t' @ r'"
  shows "t = t'"
proof -
  from assms(1) obtain b c where t: "t = b @ [c]" "c \<in> set digits" "\<forall>x \<in> set b. x \<notin> set digits"
    by (rule token_shape)
  from assms(2) obtain b' c' where
    t': "t' = b' @ [c']" "c' \<in> set digits" "\<forall>x \<in> set b'. x \<notin> set digits"
    by (rule token_shape)
  from assms(3) t(1) t'(1) have eq: "b @ c # r = b' @ c' # r'" by simp
  have "b = takeWhile (\<lambda>x. x \<notin> set digits) (b @ c # r)"
    using first_digit [OF t(3) t(2)] by simp
  also have "\<dots> = takeWhile (\<lambda>x. x \<notin> set digits) (b' @ c' # r')" by (simp only: eq)
  also have "\<dots> = b'" by (rule first_digit [OF t'(3) t'(2)])
  finally have "b = b'" .
  with eq have "c = c'" by simp
  with \<open>b = b'\<close> t(1) t'(1) show ?thesis by simp
qed

lemma Find_token_Some_unique:
  assumes "FindStringSubmatch0 awsRegionRegExp s = Some t"
  shows "\<exists>pre post. s = pre @ t @ post \<and> spec_region_token t \<and>
           (\<forall>pre' t' post'. s = pre' @ t' @ post' \<and> spec_region_token t' \<longrightarrow>
              length pre < length pre' \<or> (pre' = pre \<and> t' = t))"
proof -
  from Find_token_Some [OF assms] obtain pre post where
    s: "s = pre @ t @ post" and t: "spec_region_token t" and
    least: "\<forall>pre' t' post'. s = pre' @ t' @ post' \<and> spec_region_token t' \<longrightarrow> length pre \<le> length pre'"
    by blast
  have "\<forall>pre' t' post'. s = pre' @ t' @ post' \<and> spec_region_token t' \<longrightarrow>
          length pre < length pre' \<or> (pre' = pre \<and> t' = t)"
  proof (intro allI impI)
    fix pre' t' post' assume a: "s = pre' @ t' @ post' \<and> spec_region_token t'"
    with least have le: "length pre \<le> length pre'" by blast
    show "length pre < length pre' \<or> (pre' = pre \<and> t' = t)"
    proof (cases "length pre < length pre'")
      case True
      then show ?thesis by simp
    next
      case False
      with le have len: "length pre' = length pre" by simp
      from a s have "pre' @ (t' @ post') = pre @ (t @ post)" by simp
      with len have "pre' = pre" and "t' @ post' = t @ post" by simp_all
      with a t have "t' = t" using token_prefix_free by blast
      with \<open>pre' = pre\<close> show ?thesis by simp
    qed
  qed
  with s t show ?thesis by blast
qed

lemma region_token_eu_west_1: "spec_region_token ''eu-west-1''"
proof -
  have "''eu'' \<in> spec_partition_prefixes" by (simp add: spec_partition_prefixes_def)
  moreover have "''west'' \<in> spec_directions" by (simp add: spec_directions_eq)
  moreover have "CHR ''1'' \<in> set digits" by (simp add: digits_def)
  moreover have "''eu-west-1'' = ''eu'' @ ''-'' @ ''west'' @ ''-'' @ [CHR ''1'']" by simp
  ultimately show ?thesis unfolding spec_region_token_def by blast
qed

lemma plain_parse_some_id: "url_Parse plain_library some_id_url = Some some_id_url"
  by (simp add: plain_library_def some_id_url_def is_CTL_def)

lemma plain_host_some_id:
  "Hostname plain_library some_id_url = ''some-id.lambda-url.'' @ ''eu-west-1'' @ ''.on.aws''"
  by (simp add: plain_library_def some_id_url_def)

lemma Find_some_id:
  "FindStringSubmatch0 awsRegionRegExp ''some-id.lambda-url.eu-west-1.on.aws'' = Some ''eu-west-1''"
  by code_simp

lemma guess_some_id: "guessAWSRegion plain_library some_id_url = Inr (''eu-west-1'', None)"
proof -
  have host: "Hostname plain_library some_id_url = ''some-id.lambda-url.eu-west-1.on.aws''"
    using plain_host_some_id by simp
  show ?thesis
    unfolding guessAWSRegion_def plain_parse_some_id option.case host Find_some_id by simp
qed

lemma plain_parse_malformed: "url_Parse plain_library malformed_url = Some malformed_url"
  by (simp add: plain_library_def malformed_url_def is_CTL_def)

lemma plain_host_malformed:
  "Hostname plain_library malformed_url = ''some-id.lambda-url.eu-us-2.on.aws''"
  by (simp add: plain_library_def malformed_url_def)

lemma Find_malformed:
  "FindStringSubmatch0 awsRegionRegExp ''some-id.lambda-url.eu-us-2.on.aws'' = None"
  by code_simp

lemma no_token_in_malformed:
  "\<not> (\<exists>pre t post. Hostname plain_library malformed_url = pre @ t @ post \<and> spec_region_token t)"
  unfolding plain_host_malformed using Find_malformed Find_token_None by blast


section \<open>The claims\<close>

text \<open>
  C1 (end-to-end vector of \<open>TestSignRequest\<close>). The claim: for the fixed input (method POST,
  URL \<open>https://some-id.lambda-url.eu-west-1.on.aws/\<close>, region \<open>eu-west-1\<close>, body \<open>{}\<close>),
  \<open>buildRequest\<close> followed by \<open>SignHTTP\<close> produces a request with the expected
  \<open>X-Amz-Date\<close> and \<open>Authorization\<close> headers. What the code does on that input, with
  the \<open>-headers\<close> flag at its default \<open>""\<close> as in the test: \<open>buildRequest\<close> never
  returns. Whatever the library computes, it ends in \<open>os.Exit(1)\<close> or in the panic
  \<open>index out of range [1] with length 1\<close> of line 124, so no request reaches \<open>SignHTTP\<close>.
\<close>

theorem TestSignRequest_buildRequest_does_not_return:
  "buildRequest L [] some_id_url ''POST'' ''eu-west-1'' ''{}'' h =
     Inl (if NewRequest_rejects L ''POST'' some_id_url then OsExit 1 else IndexOutOfRange 1 1)"
  by (simp add: buildRequest_eq index_def)

text \<open>
  C2 (every header line parses without error or panic). What the code does: when
  \<open>http.NewRequest\<close> has accepted the method and the URL and some line of the header text
  holds no colon, \<open>strings.Split(header, ":")[1]\<close> panics with
  \<open>index out of range [1] with length 1\<close> and the request build is aborted. The empty
  header text, the flag's default, has one such line.
\<close>

theorem header_line_without_colon_panics:
  assumes "\<not> NewRequest_rejects L m url"
    and "\<exists>line \<in> set (Split headerList (CHR 0x0A)). CHR '':'' \<notin> set line"
  shows "buildRequest L headerList url m region body h = Inl (IndexOutOfRange 1 1)"
  using assms by (simp add: buildRequest_eq add_headers_panics)

theorem header_line_without_colon_panics_witness:
  "buildRequest plain_library (''Accept: *'' @ [CHR 0x0A] @ ''fkeofew??'') some_id_url ''POST''
     ''eu-west-1'' ''{}'' [] = Inl (IndexOutOfRange 1 1)"
proof -
  have "\<exists>line \<in> set (Split (''Accept: *'' @ [CHR 0x0A] @ ''fkeofew??'') (CHR 0x0A)).
          CHR '':'' \<notin> set line"
    by code_simp
  from header_line_without_colon_panics [OF plain_accepts this] show ?thesis .
qed

text \<open>
  C3 (the payload hash is the digest of the bytes sent). Whenever \<open>main\<close> reaches the call
  of \<open>SignHTTP\<close>, the payload hash it passes is the hex SHA-256 digest of the bytes that
  the request's body yields from then on, and these are the bytes of the \<open>-body\<close> flag:
  line 81 has put a fresh reader in the place of the one the hashing drained.
\<close>

theorem bodyHash_is_digest_of_transmitted_body:
  assumes "main_to_SignHTTP L run = Inr (call, h)"
  shows "arg_bodyHash call = payload_hash (transmitted h (arg_req call)) \<and>
         transmitted h (arg_req call) = flag_body run"
  using assms
  by (auto simp: main_to_SignHTTP_def buildRequest_eq strings_NewReader_def transmitted_def
      lookup_def unread_def Let_def nth_append split: if_splits sum.splits prod.splits)

theorem bodyHash_is_digest_of_transmitted_body_witness:
  "main_to_SignHTTP plain_library example_run = Inr (example_call, example_heap) \<and>
   arg_bodyHash example_call = payload_hash (transmitted example_heap (arg_req example_call)) \<and>
   transmitted example_heap (arg_req example_call) = flag_body example_run"
proof -
  have reaches: "main_to_SignHTTP plain_library example_run = Inr (example_call, example_heap)"
    by (simp add: main_to_SignHTTP_def resolve_region_def example_run_def guess_some_id
        some_id_url_not_empty buildRequest_Accept strings_NewReader_def example_call_def
        example_heap_def)
  show ?thesis
    by (rule conjI [OF reaches bodyHash_is_digest_of_transmitted_body [OF reaches]])
qed

text \<open>
  C4 (the region resolver returns the first token). For every URL that \<open>url.Parse\<close>
  accepts and whose hostname contains a token of the region grammar, \<open>guessAWSRegion\<close>
  returns a token of the hostname and no error, and every occurrence of a token in the
  hostname either starts further right or is the occurrence returned. For the hostname \<open>some-id.lambda-url.eu-west-1.on.aws\<close> this is
  \<open>eu-west-1\<close>.
\<close>

theorem guessAWSRegion_returns_first_token:
  assumes "url_Parse L lambdaURL = Some u"
    and "\<exists>pre t post. Hostname L u = pre @ t @ post \<and> spec_region_token t"
  shows "\<exists>pre t post.
           guessAWSRegion L lambdaURL = Inr (t, None) \<and>
           Hostname L u = pre @ t @ post \<and> spec_region_token t \<and>
           (\<forall>pre' t' post'. Hostname L u = pre' @ t' @ post' \<and> spec_region_token t' \<longrightarrow>
              length pre < length pre' \<or> (pre' = pre \<and> t' = t))"
proof -
  from assms(2) have "FindStringSubmatch0 awsRegionRegExp (Hostname L u) \<noteq> None"
    by (simp only: Find_token_None) simp
  then obtain t where t: "FindStringSubmatch0 awsRegionRegExp (Hostname L u) = Some t"
    by auto
  from Find_token_Some_unique [OF t] obtain pre post where
    "Hostname L u = pre @ t @ post" "spec_region_token t"
    "\<forall>pre' t' post'. Hostname L u = pre' @ t' @ post' \<and> spec_region_token t' \<longrightarrow>
       length pre < length pre' \<or> (pre' = pre \<and> t' = t)"
    by blast
  moreover have "guessAWSRegion L lambdaURL = Inr (t, None)"
    by (simp add: guessAWSRegion_def assms(1) t)
  ultimately show ?thesis by blast
qed

theorem guessAWSRegion_returns_first_token_witness:
  "\<exists>pre post.
     guessAWSRegion plain_library some_id_url = Inr (''eu-west-1'', None) \<and>
     Hostname plain_library some_id_url = pre @ ''eu-west-1'' @ post \<and>
     spec_region_token ''eu-west-1'' \<and>
     (\<forall>pre' t' post'. Hostname plain_library some_id_url = pre' @ t' @ post' \<and> spec_region_token t' \<longrightarrow>
        length pre < length pre' \<or> (pre' = pre \<and> t' = ''eu-west-1''))"
proof -
  have "\<exists>pre t post. Hostname plain_library some_id_url = pre @ t @ post \<and> spec_region_token t"
    using plain_host_some_id region_token_eu_west_1 by blast
  from guessAWSRegion_returns_first_token [OF plain_parse_some_id this]
  obtain pre t post where
    r: "guessAWSRegion plain_library some_id_url = Inr (t, None)" and
    rest: "Hostname plain_library some_id_url = pre @ t @ post" "spec_region_token t"
      "\<forall>pre' t' post'. Hostname plain_library some_id_url = pre' @ t' @ post' \<and> spec_region_token t' \<longrightarrow>
         length pre < length pre' \<or> (pre' = pre \<and> t' = t)"
    by blast
  from r guess_some_id have "t = ''eu-west-1''" by simp
  with r rest show ?thesis by blast
qed

text \<open>
  C5 (no token, no region). For every URL that \<open>url.Parse\<close> accepts and whose hostname
  contains no token of the region grammar, \<open>guessAWSRegion\<close> returns the empty string and
  the error \<open>lambda function URL is malformed, impossible to guess AWS region\<close>; and a
  run of \<open>main\<close> on that URL with no \<open>AWS_REGION\<close> set exits with status 1 rather than
  going on with some other region.
\<close>

theorem guessAWSRegion_without_token_fails:
  assumes "url_Parse L lambdaURL = Some u"
    and "\<not> (\<exists>pre t post. Hostname L u = pre @ t @ post \<and> spec_region_token t)"
  shows "guessAWSRegion L lambdaURL = Inr ([], Some malformed) \<and>
         (flag_lambda_url run = lambdaURL \<and> env_AWS_REGION run = [] \<longrightarrow>
            main_to_SignHTTP L run = Inl (OsExit 1))"
proof -
  from assms(2) have "FindStringSubmatch0 awsRegionRegExp (Hostname L u) = None"
    by (simp only: Find_token_None) simp
  then have "guessAWSRegion L lambdaURL = Inr ([], Some malformed)"
    by (simp add: guessAWSRegion_def assms(1))
  then show ?thesis
    by (simp add: main_to_SignHTTP_def resolve_region_def)
qed

theorem guessAWSRegion_without_token_fails_witness:
  "guessAWSRegion plain_library malformed_url = Inr ([], Some malformed) \<and>
   main_to_SignHTTP plain_library (example_run\<lparr>flag_lambda_url := malformed_url\<rparr>) = Inl (OsExit 1)"
proof -
  from guessAWSRegion_without_token_fails [OF plain_parse_malformed no_token_in_malformed,
      of "example_run\<lparr>flag_lambda_url := malformed_url\<rparr>"]
  show ?thesis by (simp add: example_run_def)
qed

text \<open>
  C8 (header keys and values are stripped of surrounding whitespace, spaces or tabs).
  What the code does on a tab-indented line, as the lines of \<open>TestHeadersParsing\<close> are:
  \<open>strings.Trim(_, " ")\<close> removes spaces only, so the key given to \<open>req.Header.Add\<close> for
  the line \<open>\tKey: Value\<close> is \<open>\tKey\<close>, tab included.
\<close>

theorem tab_indented_header_key_keeps_its_tab:
  "add_headers canon [CHR 0x09 # ''Key: Value''] Map.empty =
     Inr [canon (CHR 0x09 # ''Key'') \<mapsto> [''Value'']]"
  by (simp add: index_def Trim_def Header_Add_def)

text \<open>
  C9 (the payload hash of the empty body). Every call of \<open>buildRequest\<close> on the empty
  body string that returns, returns the payload hash
  \<open>e3b0c44298fc1c149afbf4c8996fb92427ae41e4649b934ca495991b7852b855\<close>, the lower-case
  hex SHA-256 digest of the empty byte string, whatever the URL, the method, the region
  and the header text are. (A call that does not return has ended in \<open>os.Exit(1)\<close> or in
  the panic of the header loop, before line 131.)
\<close>

theorem buildRequest_empty_body_payload_hash:
  assumes "buildRequest L headerList url m region [] h = Inr ((r, hash), h')"
  shows "hash = ''e3b0c44298fc1c149afbf4c8996fb92427ae41e4649b934ca495991b7852b855''"
  using assms
  by (auto simp: buildRequest_eq payload_hash_empty split: if_splits sum.splits)

theorem buildRequest_empty_body_payload_hash_witness:
  "buildRequest plain_library ''Accept: *'' some_id_url ''POST'' ''eu-west-1'' [] [] =
     Inr ((\<lparr>Header = [''Accept'' \<mapsto> [''*'']], Body = NoBody, ContentLength = 0\<rparr>,
           ''e3b0c44298fc1c149afbf4c8996fb92427ae41e4649b934ca495991b7852b855''),
          [\<lparr>reader_s = [], reader_i = 0\<rparr>])"
proof -
  have returns:
    "buildRequest plain_library ''Accept: *'' some_id_url ''POST'' ''eu-west-1'' [] [] =
       Inr ((\<lparr>Header = [''Accept'' \<mapsto> [''*'']], Body = NoBody, ContentLength = 0\<rparr>,
             payload_hash []), [\<lparr>reader_s = [], reader_i = 0\<rparr>])"
    by (simp add: buildRequest_Accept)
  from buildRequest_empty_body_payload_hash [OF returns]
  have "payload_hash [] = ''e3b0c44298fc1c149afbf4c8996fb92427ae41e4649b934ca495991b7852b855''" .
  with returns show ?thesis by (simp only:)
qed

text \<open>
  C10 (\<open>guessAWSRegion\<close> faults on a URL that \<open>url.Parse\<close> rejects). For every string that
  \<open>url.Parse\<close> rejects, the error is dropped and \<open>u.Hostname()\<close> dereferences the nil
  URL: \<open>guessAWSRegion\<close> panics instead of returning its error, and so does a run of
  \<open>main\<close> that has to guess the region from that string.
\<close>

theorem guessAWSRegion_rejected_URL_panics:
  assumes "url_Parse L lambdaURL = None"
  shows "guessAWSRegion L lambdaURL = Inl NilPointerDereference \<and>
         (flag_lambda_url run = lambdaURL \<and> lambdaURL \<noteq> [] \<and> env_AWS_REGION run = [] \<longrightarrow>
            main_to_SignHTTP L run = Inl NilPointerDereference)"
  using assms by (simp add: guessAWSRegion_def main_to_SignHTTP_def resolve_region_def)

theorem guessAWSRegion_rejected_URL_panics_witness:
  "url_Parse plain_library (''https://some-id'' @ [CHR 0x7F] @ ''.eu-west-1.on.aws/'') = None \<and>
   guessAWSRegion plain_library (''https://some-id'' @ [CHR 0x7F] @ ''.eu-west-1.on.aws/'') =
     Inl NilPointerDereference \<and>
   main_to_SignHTTP plain_library
     (example_run\<lparr>flag_lambda_url := ''https://some-id'' @ [CHR 0x7F] @ ''.eu-west-1.on.aws/''\<rparr>) =
     Inl NilPointerDereference"
proof -
  have rejected:
    "url_Parse plain_library (''https://some-id'' @ [CHR 0x7F] @ ''.eu-west-1.on.aws/'') = None"
    by (simp add: plain_library_def is_CTL_def)
  from guessAWSRegion_rejected_URL_panics [OF rejected,
      of "example_run\<lparr>flag_lambda_url := ''https://some-id'' @ [CHR 0x7F] @ ''.eu-west-1.on.aws/''\<rparr>"]
    rejected
  show ?thesis by (simp add: example_run_def)
qed

end
